theory Spec2Isabelle
  imports Main
begin

section \<open>Python values, rows and exceptions\<close>

text \<open>
  Both phases work on rows: dictionaries from column names to values. The values that
  reach the scoring code are strings (everything \<^verbatim>\<open>csv.DictReader\<close> reads), integers
  (\<^verbatim>\<open>load_questionnaire\<close> converts \<^verbatim>\<open>RiskWeight\<close> with \<^verbatim>\<open>int\<close>) and \<^verbatim>\<open>None\<close>
  (what \<^verbatim>\<open>dict.get\<close> returns for a missing key, and what \<^verbatim>\<open>csv.DictReader\<close> stores
  for a column missing from a short line). Strings are lists of ASCII characters.
  Every exception the code can raise on such values is a value of \<open>error\<close>; a function
  that can raise returns \<open>error + 'a\<close>, with \<open>Inl\<close> for the exception.
\<close>

datatype pyval = PyStr string | PyInt int | PyNone

datatype error = KeyError | ValueError | TypeError | AttributeError

type_synonym row = "string \<rightharpoonup> pyval"

text \<open>\<^verbatim>\<open>d[k]\<close> raises \<^verbatim>\<open>KeyError\<close> on a missing key; \<^verbatim>\<open>d.get(k, default)\<close> does not.\<close>

definition getitem :: "row \<Rightarrow> string \<Rightarrow> error + pyval" where
  "getitem d k = (case d k of None \<Rightarrow> Inl KeyError | Some v \<Rightarrow> Inr v)"

definition get_default :: "row \<Rightarrow> string \<Rightarrow> pyval \<Rightarrow> pyval" where
  "get_default d k dflt = (case d k of None \<Rightarrow> dflt | Some v \<Rightarrow> v)"

subsection \<open>String methods\<close>

definition lower_char :: "char \<Rightarrow> char" where
  "lower_char c =
     (case map_of (zip ''ABCDEFGHIJKLMNOPQRSTUVWXYZ'' ''abcdefghijklmnopqrstuvwxyz'') c of
        None \<Rightarrow> c
      | Some l \<Rightarrow> l)"

definition str_lower :: "string \<Rightarrow> string" where
  "str_lower s = map lower_char s"

text \<open>\<^verbatim>\<open>v.lower()\<close>: only strings have the method.\<close>

definition lower :: "pyval \<Rightarrow> error + string" where
  "lower v = (case v of PyStr s \<Rightarrow> Inr (str_lower s) | _ \<Rightarrow> Inl AttributeError)"

text \<open>
  The ASCII characters Python counts as whitespace: tab, line feed, vertical tab, form
  feed, carriage return, the four separators \<^verbatim>\<open>0x1c\<close> to \<^verbatim>\<open>0x1f\<close>, and space.
\<close>

definition isspace :: "char \<Rightarrow> bool" where
  "isspace c = (let n = (of_char c :: nat) in (9 \<le> n \<and> n \<le> 13) \<or> (28 \<le> n \<and> n \<le> 32))"

definition strip :: "string \<Rightarrow> string" where
  "strip s = rev (dropWhile isspace (rev (dropWhile isspace s)))"

text \<open>\<^verbatim>\<open>s.split(';')\<close>: the pieces between semicolons, empty pieces included.\<close>

fun split_semicolon :: "string \<Rightarrow> string list" where
  "split_semicolon [] = [[]]"
| "split_semicolon (c # cs) =
     (if c = CHR '';'' then [] # split_semicolon cs
      else (case split_semicolon cs of
              [] \<Rightarrow> [[c]]
            | w # ws \<Rightarrow> (c # w) # ws))"

subsection \<open>Conversion to an integer\<close>

definition isdigit :: "char \<Rightarrow> bool" where
  "isdigit c = (let n = (of_char c :: nat) in 48 \<le> n \<and> n \<le> 57)"

definition digit_value :: "char \<Rightarrow> int" where
  "digit_value c = int (of_char c) - 48"

text \<open>
  The digits of a decimal literal, most significant first. A single underscore may stand
  between two digits, nowhere else.
\<close>

fun digits :: "int \<Rightarrow> string \<Rightarrow> int option" where
  "digits acc [] = Some acc"
| "digits acc (c # cs) =
     (if isdigit c then digits (10 * acc + digit_value c) cs
      else if c = CHR ''_'' then
        (case cs of
           [] \<Rightarrow> None
         | d # ds \<Rightarrow> if isdigit d then digits acc cs else None)
      else None)"

definition unsigned :: "string \<Rightarrow> int option" where
  "unsigned s = (case s of [] \<Rightarrow> None | c # cs \<Rightarrow> if isdigit c then digits 0 s else None)"

text \<open>
  \<^verbatim>\<open>int(s)\<close> for a string: surrounding whitespace is dropped, one sign is allowed, the rest
  is a decimal literal. \<open>None\<close> stands for \<^verbatim>\<open>ValueError\<close>. Integers are unbounded, as
  Python's are; the interpreter's limit on the number of digits of a literal (4300 by
  default since Python 3.11, and configurable) is left out.
\<close>

definition int_of_string :: "string \<Rightarrow> int option" where
  "int_of_string s =
     (case strip s of
        [] \<Rightarrow> None
      | c # cs \<Rightarrow>
          if c = CHR ''-'' then map_option uminus (unsigned cs)
          else if c = CHR ''+'' then unsigned cs
          else unsigned (c # cs))"

text \<open>\<^verbatim>\<open>int(v)\<close>: an integer is returned as it is, \<^verbatim>\<open>int(None)\<close> raises \<^verbatim>\<open>TypeError\<close>.\<close>

definition py_int :: "pyval \<Rightarrow> error + int" where
  "py_int v =
     (case v of
        PyStr s \<Rightarrow> (case int_of_string s of None \<Rightarrow> Inl ValueError | Some n \<Rightarrow> Inr n)
      | PyInt n \<Rightarrow> Inr n
      | PyNone \<Rightarrow> Inl TypeError)"

text \<open>
  \<^verbatim>\<open>n * v\<close> for an integer \<open>n\<close>: a product of integers, a repeated string (empty when
  \<open>n \<le> 0\<close>), or \<^verbatim>\<open>TypeError\<close> for \<^verbatim>\<open>None\<close>.
\<close>

definition py_mul :: "int \<Rightarrow> pyval \<Rightarrow> error + pyval" where
  "py_mul n v =
     (case v of
        PyInt w \<Rightarrow> Inr (PyInt (n * w))
      | PyStr s \<Rightarrow> Inr (PyStr (concat (replicate (nat n) s)))
      | PyNone \<Rightarrow> Inl TypeError)"

section \<open>Phase 1: the risk score\<close>

text \<open>
  The body of the loop of \<^verbatim>\<open>calculate_risk_score\<close> up to the value of \<^verbatim>\<open>points\<close>
  (lines 102 to 124 of \<^verbatim>\<open>phase1_assessor.py\<close>): the question's identifier and the points
  of one answer. The \<^verbatim>\<open>except ValueError\<close> catches the failed \<^verbatim>\<open>int(answer)\<close> only.
\<close>

definition points :: "row \<Rightarrow> error + (pyval \<times> pyval)" where
  "points result =
     (case getitem result ''QuestionID'' of Inl e \<Rightarrow> Inl e | Inr question_id \<Rightarrow>
     (case getitem result ''AnswerGiven'' of Inl e \<Rightarrow> Inl e | Inr answer \<Rightarrow>
     (case getitem result ''AnswerType'' of Inl e \<Rightarrow> Inl e | Inr type_field \<Rightarrow>
     (case lower type_field of Inl e \<Rightarrow> Inl e | Inr answer_type \<Rightarrow>
     (case getitem result ''RiskWeight'' of Inl e \<Rightarrow> Inl e | Inr risk_weight \<Rightarrow>
        if answer_type = ''yes_no'' then
          (if answer = PyStr ''no'' then Inr (question_id, risk_weight)
           else Inr (question_id, PyInt 0))
        else if answer_type = ''score_1_5'' then
          (case py_int answer of
             Inl e \<Rightarrow> (if e = ValueError then Inr (question_id, risk_weight) else Inl e)
           | Inr score \<Rightarrow>
               (case py_mul (5 - score) risk_weight of
                  Inl e \<Rightarrow> Inl e
                | Inr p \<Rightarrow> Inr (question_id, p)))
        else Inr (question_id, PyInt 0))))))"

text \<open>
  The loop: \<^verbatim>\<open>total_risk_points += points\<close> adds to an integer, so it raises
  \<^verbatim>\<open>TypeError\<close> unless \<^verbatim>\<open>points\<close> is an integer; then the points are stored under the
  question's identifier, replacing what was stored there.
\<close>

fun calculate_risk_score_loop ::
  "int \<Rightarrow> (pyval \<rightharpoonup> int) \<Rightarrow> row list \<Rightarrow> error + (int \<times> (pyval \<rightharpoonup> int))" where
  "calculate_risk_score_loop total_risk_points question_scores [] =
     Inr (total_risk_points, question_scores)"
| "calculate_risk_score_loop total_risk_points question_scores (result # rest) =
     (case points result of
        Inl e \<Rightarrow> Inl e
      | Inr (question_id, p) \<Rightarrow>
          (case p of
             PyInt n \<Rightarrow>
               calculate_risk_score_loop (total_risk_points + n)
                 (question_scores(question_id \<mapsto> n)) rest
           | _ \<Rightarrow> Inl TypeError))"

definition calculate_risk_score :: "row list \<Rightarrow> error + (int \<times> (pyval \<rightharpoonup> int))" where
  "calculate_risk_score assessment_results =
     calculate_risk_score_loop 0 Map.empty assessment_results"

text \<open>The risk level written by \<^verbatim>\<open>generate_assessment_report\<close> (lines 144 to 149).\<close>

definition risk_level :: "int \<Rightarrow> string" where
  "risk_level total_score =
     (if total_score > 50 then ''High''
      else if total_score > 20 then ''Medium''
      else ''Low'')"

section \<open>Phase 2: mapping risky answers to framework controls\<close>

text \<open>
  The dictionary \<^verbatim>\<open>finding_details\<close>: its five keys are fixed, so it is a record.
  \<^verbatim>\<open>framework_findings\<close> keeps its keys in the order of their first insertion: an
  association list from a control to the list of its findings.
\<close>

record finding =
  QuestionID :: pyval
  QuestionText :: pyval
  AnswerGiven :: pyval
  RiskPoints :: int
  RiskArea :: pyval

type_synonym findings = "(string \<times> finding list) list"

text \<open>
  \<^verbatim>\<open>{q['QuestionID']: q for q in template_questions}\<close>: a later question replaces an
  earlier one of the same identifier; a question without the key raises \<^verbatim>\<open>KeyError\<close>.
\<close>

fun question_lookup_from :: "(pyval \<rightharpoonup> row) \<Rightarrow> row list \<Rightarrow> error + (pyval \<rightharpoonup> row)" where
  "question_lookup_from m [] = Inr m"
| "question_lookup_from m (q # qs) =
     (case getitem q ''QuestionID'' of
        Inl e \<Rightarrow> Inl e
      | Inr i \<Rightarrow> question_lookup_from (m(i \<mapsto> q)) qs)"

definition question_lookup :: "row list \<Rightarrow> error + (pyval \<rightharpoonup> row)" where
  "question_lookup template_questions = question_lookup_from Map.empty template_questions"

text \<open>
  Lines 43 to 46 of \<^verbatim>\<open>phase2_mapper.py\<close>: the weight is converted with \<^verbatim>\<open>int\<close>, a missing
  key counts as 0 and so does a string that is no integer.
\<close>

definition risk_weight :: "row \<Rightarrow> error + int" where
  "risk_weight result =
     (case py_int (get_default result ''RiskWeight'' (PyInt 0)) of
        Inl e \<Rightarrow> (if e = ValueError then Inr 0 else Inl e)
      | Inr n \<Rightarrow> Inr n)"

text \<open>
  Lines 40 to 58: the points of one answer, computed again. Here the
  \<^verbatim>\<open>except ValueError\<close> of the score branch is \<^verbatim>\<open>pass\<close>, which leaves the points at 0.
\<close>

definition points_earned :: "row \<Rightarrow> error + int" where
  "points_earned result =
     (let answer = get_default result ''AnswerGiven'' PyNone in
      (case lower (get_default result ''AnswerType'' (PyStr [])) of Inl e \<Rightarrow> Inl e
       | Inr answer_type \<Rightarrow>
      (case risk_weight result of Inl e \<Rightarrow> Inl e
       | Inr w \<Rightarrow>
         if answer_type = ''yes_no'' then
           (if answer = PyStr ''no'' then Inr w else Inr 0)
         else if answer_type = ''score_1_5'' then
           (case py_int answer of
              Inl e \<Rightarrow> (if e = ValueError then Inr 0 else Inl e)
            | Inr score \<Rightarrow> Inr ((5 - score) * w))
         else Inr 0)))"

text \<open>Line 71: the controls of a question, stripped, the empty ones left out.\<close>

definition relevant_controls :: "string \<Rightarrow> string list" where
  "relevant_controls relevant_controls_str =
     filter (\<lambda>c. c \<noteq> []) (map strip (split_semicolon relevant_controls_str))"

text \<open>
  Lines 82 to 84: a control seen for the first time gets an empty list at the end of the
  dictionary, then the finding is appended to the control's list.
\<close>

definition append_finding :: "findings \<Rightarrow> string \<Rightarrow> finding \<Rightarrow> findings" where
  "append_finding framework_findings control finding_details =
     (let created =
        (if control \<notin> set (map fst framework_findings)
         then framework_findings @ [(control, [])]
         else framework_findings)
      in map (\<lambda>(c, fs). if c = control then (c, fs @ [finding_details]) else (c, fs)) created)"

text \<open>Lines 81 to 84: the loop over the controls of one question.\<close>

fun append_findings :: "findings \<Rightarrow> string list \<Rightarrow> finding \<Rightarrow> findings" where
  "append_findings framework_findings [] finding_details = framework_findings"
| "append_findings framework_findings (control # rest) finding_details =
     append_findings (append_finding framework_findings control finding_details) rest
       finding_details"

text \<open>
  Lines 73 to 79: the finding of an answer. The question's text and area come from the
  catalog, with \<^verbatim>\<open>None\<close> for a missing column.
\<close>

definition finding_details :: "row \<Rightarrow> row \<Rightarrow> int \<Rightarrow> finding" where
  "finding_details result template_info p =
     \<lparr>QuestionID = get_default result ''QuestionID'' PyNone,
      QuestionText = get_default template_info ''QuestionText'' PyNone,
      AnswerGiven = get_default result ''AnswerGiven'' PyNone,
      RiskPoints = p,
      RiskArea = get_default template_info ''RiskArea'' PyNone\<rparr>"

text \<open>
  Lines 39 to 85: one turn of the loop over the answers. \<^verbatim>\<open>strip\<close> is a method of
  strings only, so another value under \<^verbatim>\<open>RelevantFrameworkControl\<close> raises
  \<^verbatim>\<open>AttributeError\<close>.
\<close>

definition map_answer :: "(pyval \<rightharpoonup> row) \<Rightarrow> findings \<Rightarrow> row \<Rightarrow> error + findings" where
  "map_answer lookup framework_findings result =
     (let q_id = get_default result ''QuestionID'' PyNone in
      (case points_earned result of Inl e \<Rightarrow> Inl e
       | Inr p \<Rightarrow>
         if p > 0 then
           (case lookup q_id of
              None \<Rightarrow> Inr framework_findings
            | Some template_info \<Rightarrow>
                (case get_default template_info ''RelevantFrameworkControl'' (PyStr []) of
                   PyStr s \<Rightarrow>
                     (let relevant_controls_str = strip s in
                      if relevant_controls_str \<noteq> [] then
                        Inr (append_findings framework_findings
                               (relevant_controls relevant_controls_str)
                               (finding_details result template_info p))
                      else Inr framework_findings)
                 | _ \<Rightarrow> Inl AttributeError))
         else Inr framework_findings))"

fun map_answers :: "(pyval \<rightharpoonup> row) \<Rightarrow> findings \<Rightarrow> row list \<Rightarrow> error + findings" where
  "map_answers lookup framework_findings [] = Inr framework_findings"
| "map_answers lookup framework_findings (result # rest) =
     (case map_answer lookup framework_findings result of
        Inl e \<Rightarrow> Inl e
      | Inr updated \<Rightarrow> map_answers lookup updated rest)"

text \<open>
  \<^verbatim>\<open>not x\<close> for an argument that is \<^verbatim>\<open>None\<close> or a list: true for \<^verbatim>\<open>None\<close> and for the
  empty list.
\<close>

definition py_not :: "row list option \<Rightarrow> bool" where
  "py_not x = (case x of None \<Rightarrow> True | Some l \<Rightarrow> l = [])"

text \<open>
  The mapper. It returns \<^verbatim>\<open>None\<close> (here \<open>Inr None\<close>) when either argument is missing or
  empty, and the dictionary of findings otherwise.
\<close>

definition analyze_framework_impact ::
  "row list option \<Rightarrow> row list option \<Rightarrow> error + findings option" where
  "analyze_framework_impact template_questions assessment_results =
     (if py_not template_questions \<or> py_not assessment_results then Inr None
      else (case (template_questions, assessment_results) of
              (Some questions, Some results) \<Rightarrow>
                (case question_lookup questions of
                   Inl e \<Rightarrow> Inl e
                 | Inr lookup \<Rightarrow>
                     (case map_answers lookup [] results of
                        Inl e \<Rightarrow> Inl e
                      | Inr framework_findings \<Rightarrow> Inr (Some framework_findings)))
            | _ \<Rightarrow> Inr None))"

text \<open>The findings stored under a control, none when the control is no key.\<close>

definition findings_of :: "findings \<Rightarrow> string \<Rightarrow> finding list" where
  "findings_of framework_findings control =
     (case map_of framework_findings control of None \<Rightarrow> [] | Some fs \<Rightarrow> fs)"

section \<open>Well-formed input\<close>

text \<open>
  An answered question as the data model has it: the row carries the question's
  identifier, its answer type and the answer as strings, and its weight. Phase 1 holds the
  weight as an integer; a row read back from the saved file holds it as a string.
\<close>

definition answered_question :: "row \<Rightarrow> pyval \<Rightarrow> string \<Rightarrow> pyval \<Rightarrow> string \<Rightarrow> bool" where
  "answered_question r qid t wv a \<longleftrightarrow>
     r ''QuestionID'' = Some qid \<and> r ''AnswerType'' = Some (PyStr t) \<and>
     r ''RiskWeight'' = Some wv \<and> r ''AnswerGiven'' = Some (PyStr a)"

text \<open>
  A question of the catalog: it has an identifier, and its list of controls is a string
  when the column is there.
\<close>

definition catalog_question :: "row \<Rightarrow> bool" where
  "catalog_question q \<longleftrightarrow>
     q ''QuestionID'' \<noteq> None \<and>
     (case q ''RelevantFrameworkControl'' of
        None \<Rightarrow> True
      | Some v \<Rightarrow> (case v of PyStr s \<Rightarrow> True | _ \<Rightarrow> False))"

text \<open>The row of an answer with exactly the four columns the scoring reads.\<close>

definition answer_row :: "string \<Rightarrow> string \<Rightarrow> pyval \<Rightarrow> string \<Rightarrow> row" where
  "answer_row qid t wv a =
     [''QuestionID'' \<mapsto> PyStr qid, ''AnswerType'' \<mapsto> PyStr t, ''RiskWeight'' \<mapsto> wv,
      ''AnswerGiven'' \<mapsto> PyStr a]"

text \<open>
  The invariant of the dictionary of findings: no control has an empty list, and every
  finding stored has positive points.
\<close>

definition risky_findings :: "findings \<Rightarrow> bool" where
  "risky_findings framework_findings \<longleftrightarrow>
     list_all (\<lambda>(control, fs). fs \<noteq> [] \<and> list_all (\<lambda>f. 0 < RiskPoints f) fs)
       framework_findings"

section \<open>Example rows\<close>

text \<open>
  A question of the catalog as \<^verbatim>\<open>load_csv_data\<close> reads it, every column a string, and the
  question and finding of the examples below.
\<close>

definition question_row ::
  "string \<Rightarrow> string \<Rightarrow> string \<Rightarrow> string \<Rightarrow> string \<Rightarrow> string \<Rightarrow> row" where
  "question_row qid text t w area controls =
     [''QuestionID'' \<mapsto> PyStr qid, ''QuestionText'' \<mapsto> PyStr text, ''AnswerType'' \<mapsto> PyStr t,
      ''RiskWeight'' \<mapsto> PyStr w, ''RiskArea'' \<mapsto> PyStr area,
      ''RelevantFrameworkControl'' \<mapsto> PyStr controls]"

definition access_question :: row where
  "access_question =
     question_row ''Q1'' ''MFA enforced?'' ''yes_no'' ''10'' ''Access'' ''ISO:A.9; NIST:AC-2''"

definition backup_question :: row where
  "backup_question =
     question_row ''Q4'' ''Backups tested?'' ''score_1_5'' ''2'' ''Resilience'' ''ISO:A.12;ISO:A.12''"

definition backup_finding :: finding where
  "backup_finding =
     \<lparr>QuestionID = PyStr ''Q4'', QuestionText = PyStr ''Backups tested?'',
      AnswerGiven = PyStr ''2'', RiskPoints = 6, RiskArea = PyStr ''Resilience''\<rparr>"

definition access_finding :: finding where
  "access_finding =
     \<lparr>QuestionID = PyStr ''Q1'', QuestionText = PyStr ''MFA enforced?'',
      AnswerGiven = PyStr ''no'', RiskPoints = 10, RiskArea = PyStr ''Access''\<rparr>"

section \<open>Scoring one answer\<close>

lemmas string_eval = lower_def str_lower_def lower_char_def strip_def isspace_def

lemmas int_eval = py_int_def py_mul_def int_of_string_def unsigned_def isdigit_def digit_value_def

lemmas row_eval = getitem_def get_default_def answer_row_def

lemma answered_answer_row: "answered_question (answer_row qid t wv a) (PyStr qid) t wv a"
  by (simp add: answered_question_def answer_row_def)

text \<open>The points of phase 1 for an answered question with an integer weight.\<close>

lemma points_answered:
  assumes "answered_question r qid t (PyInt w) a"
  shows "points r =
     Inr (qid, PyInt
       (if str_lower t = ''yes_no'' then (if a = ''no'' then w else 0)
        else if str_lower t = ''score_1_5'' then
          (case int_of_string a of None \<Rightarrow> w | Some s \<Rightarrow> (5 - s) * w)
        else 0))"
  using assms
  by (simp add: answered_question_def points_def getitem_def lower_def py_int_def py_mul_def
      split: option.split)

text \<open>The points of phase 2 for an answered question whose weight converts to \<open>w\<close>.\<close>

lemma points_earned_answered:
  assumes "answered_question r qid t wv a" and "py_int wv = Inr w"
  shows "points_earned r =
     Inr (if str_lower t = ''yes_no'' then (if a = ''no'' then w else 0)
        else if str_lower t = ''score_1_5'' then
          (case int_of_string a of None \<Rightarrow> 0 | Some s \<Rightarrow> (5 - s) * w)
        else 0)"
  using assms
  by (simp add: answered_question_def points_earned_def risk_weight_def get_default_def lower_def
      py_int_def Let_def split: option.split)

lemma points_earned_answered_unparseable_weight:
  assumes "answered_question r qid t (PyStr s) a" and "int_of_string s = None"
  shows "points_earned r = Inr 0"
  using assms
  by (simp add: answered_question_def points_earned_def risk_weight_def get_default_def lower_def
      py_int_def Let_def split: option.split)

text \<open>Phase 2 scores every answered question whose weight is not \<^verbatim>\<open>None\<close>.\<close>

lemma points_earned_total:
  assumes "answered_question r qid t wv a" and "wv \<noteq> PyNone"
  shows "\<exists>p. points_earned r = Inr p"
proof (cases wv)
  case (PyStr s)
  show ?thesis
  proof (cases "int_of_string s")
    case None
    with PyStr assms(1) show ?thesis
      by (auto dest: points_earned_answered_unparseable_weight)
  next
    case (Some w)
    with PyStr have "py_int wv = Inr w" by (simp add: py_int_def)
    from points_earned_answered [OF assms(1) this] show ?thesis by blast
  qed
next
  case (PyInt w)
  then have "py_int wv = Inr w" by (simp add: py_int_def)
  from points_earned_answered [OF assms(1) this] show ?thesis by blast
next
  case PyNone
  with assms(2) show ?thesis by simp
qed

text \<open>
  Where the answer of a score question converts to an integer, and for every other
  answer type, the two phases compute the same points.
\<close>

lemma phases_agree_otherwise:
  assumes "answered_question r qid t (PyInt w) a"
    and "str_lower t = ''score_1_5'' \<longrightarrow> int_of_string a \<noteq> None"
  shows "\<exists>p. points r = Inr (qid, PyInt p) \<and> points_earned r = Inr p"
proof -
  have "py_int (PyInt w) = Inr w" by (simp add: py_int_def)
  from points_earned_answered [OF assms(1) this] points_answered [OF assms(1)] assms(2)
  show ?thesis by (auto split: option.splits)
qed

text \<open>
  Claim C1: for every answered question the points of phase 1 and the points phase 2
  derives again are equal, also for a score answer that is no integer. The code does not
  do this: for the answer \<^verbatim>\<open>n/a\<close> to a score question of weight 3, phase 1 computes
  3 points and phase 2 computes 0, with the weight as phase 1 holds it and as the saved
  file gives it back.
\<close>

theorem phases_differ_on_unparseable_score:
  "points (answer_row ''Q2'' ''score_1_5'' (PyInt 3) ''n/a'') = Inr (PyStr ''Q2'', PyInt 3) \<and>
   points_earned (answer_row ''Q2'' ''score_1_5'' (PyInt 3) ''n/a'') = Inr 0 \<and>
   points_earned (answer_row ''Q2'' ''score_1_5'' (PyStr ''3'') ''n/a'') = Inr 0"
  by (simp add: points_def points_earned_def risk_weight_def row_eval string_eval int_eval)

text \<open>
  Claim C2: a score answer that is no integer gets the question's weight as its points, and
  nothing is raised, in both phases. Phase 1 does so; phase 2 leaves the points at 0, so
  the claim fails there whenever the weight is not 0.
\<close>

theorem unparseable_score_points:
  assumes "answered_question r qid t (PyInt w) a"
    and "str_lower t = ''score_1_5''" and "int_of_string a = None"
  shows "points r = Inr (qid, PyInt w) \<and> points_earned r = Inr 0"
proof -
  have "py_int (PyInt w) = Inr w" by (simp add: py_int_def)
  from points_earned_answered [OF assms(1) this] points_answered [OF assms(1)] assms(2,3)
  show ?thesis by simp
qed

theorem unparseable_score_points_witness:
  "points (answer_row ''Q5'' ''Score_1_5'' (PyInt 4) ''four'') = Inr (PyStr ''Q5'', PyInt 4) \<and>
   points_earned (answer_row ''Q5'' ''Score_1_5'' (PyInt 4) ''four'') = Inr 0"
proof -
  have t: "str_lower ''Score_1_5'' = ''score_1_5''" by (simp add: string_eval)
  have a: "int_of_string ''four'' = None" by (simp add: string_eval int_eval)
  from unparseable_score_points [OF answered_answer_row t a] show ?thesis .
qed






section \<open>The total score and the risk level\<close>

lemma calculate_risk_score_loop_scored:
  assumes "list_all2 (\<lambda>result (question_id, n). points result = Inr (question_id, PyInt n))
             assessment_results scored"
  shows "calculate_risk_score_loop start question_scores assessment_results =
           Inr (start + sum_list (map snd scored), question_scores ++ map_of (rev scored))"
  using assms
proof (induction assessment_results scored arbitrary: start question_scores
    rule: list_all2_induct)
  case Nil
  then show ?case by simp
next
  case (Cons result rest s ss)
  obtain k n where s: "s = (k, n)" by (cases s)
  with Cons.hyps have p: "points result = Inr (k, PyInt n)" by simp
  have m: "question_scores(k \<mapsto> n) ++ map_of (rev ss) =
           question_scores ++ map_of (rev (s # ss))"
    unfolding s by (rule ext) (simp add: map_add_def split: option.split)
  have "calculate_risk_score_loop start question_scores (result # rest) =
        calculate_risk_score_loop (start + n) (question_scores(k \<mapsto> n)) rest"
    by (simp add: p)
  also have "\<dots> = Inr (start + n + sum_list (map snd ss),
                        question_scores(k \<mapsto> n) ++ map_of (rev ss))"
    by (rule Cons.IH)
  also have "start + n + sum_list (map snd ss) = start + sum_list (map snd (s # ss))"
    by (simp add: s)
  finally show ?case
    by (simp only: m)
qed

lemma answered_questions_scored:
  assumes "\<forall>r\<in>set rs. \<exists>qid t w a. answered_question r qid t (PyInt w) a"
  shows "\<exists>scored. list_all2
           (\<lambda>result (question_id, n). points result = Inr (question_id, PyInt n)) rs scored"
  using assms
proof (induction rs)
  case Nil
  then show ?case by simp
next
  case (Cons r rs)
  then obtain scored where
    sc: "list_all2 (\<lambda>result (question_id, n). points result = Inr (question_id, PyInt n))
           rs scored"
    by auto
  from Cons.prems obtain qid t w a where "answered_question r qid t (PyInt w) a" by auto
  from points_answered [OF this] obtain n where "points r = Inr (qid, PyInt n)" by blast
  with sc have "list_all2 (\<lambda>result (question_id, n). points result = Inr (question_id, PyInt n))
      (r # rs) ((qid, n) # scored)" by simp
  then show ?case by blast
qed

lemma last_write_wins:
  assumes "k \<notin> fst ` set after"
  shows "map_of (rev (before @ (k, n) # after)) k = Some n"
proof -
  from assms have "map_of (rev after) k = None"
    by (simp add: map_of_eq_None_iff)
  then show ?thesis
    by (simp add: map_add_def)
qed

text \<open>
  Claim C6: for every sequence of answered questions the aggregation returns. With
  \<open>scored\<close> the identifier and the points of each answer in turn, the total is the sum
  of all the points, and the mapping holds for each identifier the points of the last
  answer that carries it. The empty sequence gives the total 0 and the empty mapping.
\<close>

theorem calculate_risk_score_total:
  assumes "\<forall>r\<in>set assessment_results. \<exists>qid t w a. answered_question r qid t (PyInt w) a"
  shows "\<exists>scored.
           list_all2 (\<lambda>result (question_id, n). points result = Inr (question_id, PyInt n))
             assessment_results scored \<and>
           calculate_risk_score assessment_results =
             Inr (sum_list (map snd scored), map_of (rev scored)) \<and>
           (\<forall>before k n after. scored = before @ (k, n) # after \<and> k \<notin> fst ` set after \<longrightarrow>
              map_of (rev scored) k = Some n) \<and>
           calculate_risk_score [] = Inr (0, Map.empty)"
proof -
  from answered_questions_scored [OF assms] obtain scored where
    sc: "list_all2 (\<lambda>result (question_id, n). points result = Inr (question_id, PyInt n))
      assessment_results scored" by blast
  have "calculate_risk_score assessment_results =
        calculate_risk_score_loop 0 Map.empty assessment_results"
    by (simp add: calculate_risk_score_def)
  also have "\<dots> = Inr (0 + sum_list (map snd scored), Map.empty ++ map_of (rev scored))"
    by (rule calculate_risk_score_loop_scored [OF sc])
  finally have res: "calculate_risk_score assessment_results =
      Inr (sum_list (map snd scored), map_of (rev scored))"
    by simp
  have lww: "\<forall>before k n after. scored = before @ (k, n) # after \<and> k \<notin> fst ` set after \<longrightarrow>
      map_of (rev scored) k = Some n"
  proof (intro allI impI)
    fix before k n after
    assume "scored = before @ (k, n) # after \<and> k \<notin> fst ` set after"
    then show "map_of (rev scored) k = Some n"
      using last_write_wins [of k after before n] by simp
  qed
  have emp: "calculate_risk_score [] = Inr (0, Map.empty)"
    by (simp add: calculate_risk_score_def)
  show ?thesis
  proof (intro exI conjI)
    show "list_all2 (\<lambda>result (question_id, n). points result = Inr (question_id, PyInt n))
      assessment_results scored" by (rule sc)
    show "calculate_risk_score assessment_results =
      Inr (sum_list (map snd scored), map_of (rev scored))" by (rule res)
    show "\<forall>before k n after. scored = before @ (k, n) # after \<and> k \<notin> fst ` set after \<longrightarrow>
      map_of (rev scored) k = Some n" by (rule lww)
    show "calculate_risk_score [] = Inr (0, Map.empty)" by (rule emp)
  qed
qed

theorem calculate_risk_score_total_witness:
  "\<exists>question_scores.
     calculate_risk_score
       [answer_row ''Q1'' ''yes_no'' (PyInt 10) ''no'',
        answer_row ''Q2'' ''score_1_5'' (PyInt 3) ''1'',
        answer_row ''Q1'' ''yes_no'' (PyInt 10) ''yes''] = Inr (22, question_scores) \<and>
     question_scores (PyStr ''Q1'') = Some 0 \<and> question_scores (PyStr ''Q2'') = Some 12"
proof -
  let ?r1 = "answer_row ''Q1'' ''yes_no'' (PyInt 10) ''no''"
  let ?r2 = "answer_row ''Q2'' ''score_1_5'' (PyInt 3) ''1''"
  let ?r3 = "answer_row ''Q1'' ''yes_no'' (PyInt 10) ''yes''"
  have h: "\<forall>r\<in>set [?r1, ?r2, ?r3]. \<exists>qid t w a. answered_question r qid t (PyInt w) a"
    using answered_answer_row by (simp del: fun_upd_apply) blast
  from calculate_risk_score_total [OF h] obtain scored where
    sc: "list_all2 (\<lambda>result (question_id, n). points result = Inr (question_id, PyInt n))
           [?r1, ?r2, ?r3] scored"
    and res: "calculate_risk_score [?r1, ?r2, ?r3] =
           Inr (sum_list (map snd scored), map_of (rev scored))"
    by (elim exE conjE)
  have p1: "points ?r1 = Inr (PyStr ''Q1'', PyInt 10)"
    and p2: "points ?r2 = Inr (PyStr ''Q2'', PyInt 12)"
    and p3: "points ?r3 = Inr (PyStr ''Q1'', PyInt 0)"
    by (simp_all add: points_def row_eval string_eval int_eval)
  from sc have "scored = [(PyStr ''Q1'', 10), (PyStr ''Q2'', 12), (PyStr ''Q1'', 0)]"
    by (auto simp add: list_all2_Cons1 p1 p2 p3)
  with res show ?thesis by simp
qed

text \<open>
  Claim C8: the risk level follows the fixed thresholds: above 50 it is High, above 20 and
  up to 50 it is Medium, up to 20 it is Low; so 51 is High, 50 and 21 are Medium, 20 and 0
  are Low.
\<close>

theorem risk_level_thresholds:
  "(50 < total_score \<longrightarrow> risk_level total_score = ''High'') \<and>
   (20 < total_score \<and> total_score \<le> 50 \<longrightarrow> risk_level total_score = ''Medium'') \<and>
   (total_score \<le> 20 \<longrightarrow> risk_level total_score = ''Low'') \<and>
   risk_level 51 = ''High'' \<and> risk_level 50 = ''Medium'' \<and> risk_level 21 = ''Medium'' \<and>
   risk_level 20 = ''Low'' \<and> risk_level 0 = ''Low''"
  by (simp add: risk_level_def)

theorem risk_level_thresholds_witness:
  "risk_level 75 = ''High'' \<and> risk_level 35 = ''Medium'' \<and> risk_level (- 4) = ''Low''"
proof -
  have "risk_level 75 = ''High''" using risk_level_thresholds [of 75] by simp
  moreover have "risk_level 35 = ''Medium''" using risk_level_thresholds [of 35] by simp
  moreover have "risk_level (- 4) = ''Low''" using risk_level_thresholds [of "- 4"] by simp
  ultimately show ?thesis by simp
qed

section \<open>The mapper\<close>

lemmas mapper_eval =
  analyze_framework_impact_def py_not_def question_lookup_def map_answer_def points_earned_def
  risk_weight_def relevant_controls_def append_finding_def finding_details_def
  question_row_def access_question_def access_finding_def backup_question_def
  backup_finding_def

lemma catalog_question_row: "catalog_question (question_row qid text t w area controls)"
  by (simp add: catalog_question_def question_row_def)

lemma access_mapped:
  "analyze_framework_impact (Some [access_question])
     (Some [answer_row ''Q1'' ''yes_no'' (PyStr ''10'') ''no'',
            answer_row ''Q1'' ''yes_no'' (PyStr ''10'') ''yes'']) =
   Inr (Some [(''ISO:A.9'', [access_finding]), (''NIST:AC-2'', [access_finding])])"
  by (simp add: mapper_eval row_eval string_eval int_eval)

subsection \<open>Only risky answers are mapped\<close>

lemma risky_findings_append_finding:
  assumes "risky_findings F" and "0 < RiskPoints fd"
  shows "risky_findings (append_finding F c fd)"
proof -
  let ?P = "\<lambda>(control, fs). fs \<noteq> [] \<and> list_all (\<lambda>f. 0 < RiskPoints f) fs"
  let ?Q = "\<lambda>(control, fs). list_all (\<lambda>f. 0 < RiskPoints f) fs \<and> (fs = [] \<longrightarrow> control = c)"
  let ?upd = "\<lambda>(k, fs). if k = c then (k, fs @ [fd]) else (k, fs)"
  have step: "list_all ?P (map ?upd G)" if "list_all ?Q G" for G
    using that assms(2) by (induction G) (auto split: if_splits)
  from assms(1) have "list_all ?P F"
    by (simp add: risky_findings_def)
  then have q: "list_all ?Q F"
    by (induction F) auto
  then have q': "list_all ?Q (F @ [(c, [])])"
    by simp
  from step [OF q] step [OF q'] show ?thesis
    by (simp add: risky_findings_def append_finding_def Let_def)
qed

lemma risky_findings_append_findings:
  assumes "risky_findings F" and "0 < RiskPoints fd"
  shows "risky_findings (append_findings F cs fd)"
  using assms
  by (induction cs arbitrary: F) (simp_all add: risky_findings_append_finding)

lemma risky_findings_map_answer:
  assumes "risky_findings F" and "map_answer lookup F result = Inr F'"
  shows "risky_findings F'"
proof -
  have fd: "0 < p \<Longrightarrow> 0 < RiskPoints (finding_details result q p)" for q p
    by (simp add: finding_details_def)
  from assms show ?thesis
    by (auto simp add: map_answer_def Let_def risky_findings_append_findings fd
        split: sum.splits if_splits option.splits pyval.splits)
qed

lemma risky_findings_map_answers:
  assumes "risky_findings F" and "map_answers lookup F results = Inr F'"
  shows "risky_findings F'"
  using assms
proof (induction results arbitrary: F)
  case Nil
  then show ?case by simp
next
  case (Cons result rest)
  from Cons.prems(2) obtain G where
    g: "map_answer lookup F result = Inr G" and r: "map_answers lookup G rest = Inr F'"
    by (auto split: sum.splits)
  from risky_findings_map_answer [OF Cons.prems(1) g] have "risky_findings G" .
  from Cons.IH [OF this r] show ?case .
qed

lemma zero_points_unmapped:
  assumes "points_earned result = Inr p" and "p \<le> 0"
  shows "map_answer lookup F result = Inr F"
  using assms by (simp add: map_answer_def)

text \<open>
  Claim C7: every finding in the map the mapper returns has positive points, and no
  control of the map has an empty list of findings. An answer with 0 points leaves the map
  as it is, and so does every answer to a text question.
\<close>

theorem findings_are_risky:
  "(analyze_framework_impact template_questions assessment_results = Inr (Some framework_findings)
      \<longrightarrow> risky_findings framework_findings) \<and>
   (points_earned result = Inr p \<and> p \<le> 0 \<longrightarrow> map_answer lookup F result = Inr F) \<and>
   (answered_question result qid t wv a \<and> wv \<noteq> PyNone \<and> str_lower t = ''text''
      \<longrightarrow> map_answer lookup F result = Inr F)"
proof (intro conjI impI)
  assume a: "analyze_framework_impact template_questions assessment_results =
    Inr (Some framework_findings)"
  have e: "risky_findings []" by (simp add: risky_findings_def)
  from a obtain lk rs where "map_answers lk [] rs = Inr framework_findings"
    by (auto simp add: analyze_framework_impact_def split: if_splits option.splits sum.splits)
  from risky_findings_map_answers [OF e this] show "risky_findings framework_findings" .
next
  assume "points_earned result = Inr p \<and> p \<le> 0"
  then show "map_answer lookup F result = Inr F"
    by (simp add: zero_points_unmapped)
next
  assume a: "answered_question result qid t wv a \<and> wv \<noteq> PyNone \<and> str_lower t = ''text''"
  then obtain p where p: "points_earned result = Inr p"
    using points_earned_total by blast
  have "p = 0"
  proof (cases "\<exists>w. py_int wv = Inr w")
    case True
    then obtain w where "py_int wv = Inr w" by blast
    from points_earned_answered [OF _ this, of result qid t a] a p show ?thesis by simp
  next
    case False
    with a obtain s where "wv = PyStr s" and "int_of_string s = None"
      by (cases wv) (auto simp add: py_int_def split: option.splits)
    with points_earned_answered_unparseable_weight [of result qid t s a] a p show ?thesis by simp
  qed
  with p show "map_answer lookup F result = Inr F"
    by (simp add: zero_points_unmapped)
qed

theorem findings_are_risky_witness:
  "analyze_framework_impact (Some [access_question])
     (Some [answer_row ''Q1'' ''yes_no'' (PyStr ''10'') ''no'',
            answer_row ''Q1'' ''yes_no'' (PyStr ''10'') ''yes'']) =
     Inr (Some [(''ISO:A.9'', [access_finding]), (''NIST:AC-2'', [access_finding])]) \<and>
   risky_findings [(''ISO:A.9'', [access_finding]), (''NIST:AC-2'', [access_finding])] \<and>
   map_answer Map.empty [(''ISO:A.9'', [access_finding])]
     (answer_row ''Q1'' ''yes_no'' (PyStr ''10'') ''yes'') = Inr [(''ISO:A.9'', [access_finding])] \<and>
   map_answer Map.empty [(''ISO:A.9'', [access_finding])]
     (answer_row ''Q3'' ''Text'' (PyStr ''8'') ''no'') = Inr [(''ISO:A.9'', [access_finding])]"
proof -
  let ?F = "[(''ISO:A.9'', [access_finding]), (''NIST:AC-2'', [access_finding])]"
  let ?G = "[(''ISO:A.9'', [access_finding])]"
  let ?yes = "answer_row ''Q1'' ''yes_no'' (PyStr ''10'') ''yes''"
  let ?text = "answer_row ''Q3'' ''Text'' (PyStr ''8'') ''no''"
  have z: "points_earned ?yes = Inr 0"
    by (simp add: points_earned_def risk_weight_def row_eval string_eval int_eval)
  have t: "answered_question ?text (PyStr ''Q3'') ''Text'' (PyStr ''8'') ''no'' \<and>
           PyStr ''8'' \<noteq> PyNone \<and> str_lower ''Text'' = ''text''"
    by (simp add: answered_answer_row string_eval)
  from findings_are_risky [where template_questions = "Some [access_question]"
      and assessment_results = "Some [answer_row ''Q1'' ''yes_no'' (PyStr ''10'') ''no'', ?yes]"
      and framework_findings = ?F and result = ?yes and p = 0 and lookup = Map.empty
      and F = ?G]
    access_mapped z
  have a: "risky_findings ?F" and b: "map_answer Map.empty ?G ?yes = Inr ?G"
    by simp_all
  from findings_are_risky [where result = ?text and lookup = Map.empty and F = ?G
      and qid = "PyStr ''Q3''" and t = "''Text''" and wv = "PyStr ''8''" and a = "''no''"] t
  have c: "map_answer Map.empty ?G ?text = Inr ?G"
    by blast
  from access_mapped a b c show ?thesis by (intro conjI)
qed

subsection \<open>A question with two controls\<close>

lemma findings_of_append_finding:
  "findings_of (append_finding F c fd) k =
     (if k = c then findings_of F c @ [fd] else findings_of F k)"
proof -
  let ?upd = "\<lambda>(k, fs). if k = c then (k, fs @ [fd]) else (k, fs)"
  have upd: "map_of (map ?upd G) k =
      (if k = c then map_option (\<lambda>fs. fs @ [fd]) (map_of G c) else map_of G k)" for G
    by (induction G) auto
  show ?thesis
  proof (cases "c \<in> set (map fst F)")
    case True
    then obtain fs where "map_of F c = Some fs"
      by (metis map_of_eq_None_iff not_Some_eq set_map)
    with True show ?thesis
      by (simp add: findings_of_def append_finding_def upd)
  next
    case False
    then have "map_of F c = None"
      by (simp add: map_of_eq_None_iff)
    with False show ?thesis
      by (simp add: findings_of_def append_finding_def upd map_add_def split: option.split)
  qed
qed

lemma keys_append_finding:
  "set (map fst (append_finding F c fd)) = insert c (set (map fst F))"
proof -
  let ?upd = "\<lambda>(k, fs). if k = c then (k, fs @ [fd]) else (k, fs)"
  have "map fst (map ?upd G) = map fst G" for G
    by (induction G) auto
  then show ?thesis
    by (auto simp add: append_finding_def Let_def simp del: map_map)
qed

text \<open>
  \<^verbatim>\<open>strip\<close> returns the part between the leading and the trailing whitespace: the only
  part of the string that starts and ends with another character.
\<close>

lemma strip_unique:
  assumes "\<forall>c\<in>set l. isspace c" and "\<forall>c\<in>set r. isspace c"
    and "m \<noteq> []" and "\<not> isspace (hd m)" and "\<not> isspace (last m)"
  shows "strip (l @ m @ r) = m"
proof -
  from assms(3,4) have "dropWhile isspace (m @ r) = m @ r"
    by (cases m) simp_all
  with assms(1) have 1: "dropWhile isspace (l @ m @ r) = m @ r"
    by (subst dropWhile_append2) auto
  from assms(3,5) have "dropWhile isspace (rev m) = rev m"
    by (cases m rule: rev_cases) simp_all
  with assms(2) have "dropWhile isspace (rev r @ rev m) = rev m"
    by (subst dropWhile_append2) auto
  with 1 show ?thesis
    by (simp add: strip_def)
qed

lemma strip_decompose:
  assumes "strip x \<noteq> []"
  obtains l r where "x = l @ strip x @ r" and "\<forall>c\<in>set l. isspace c" and "\<forall>c\<in>set r. isspace c"
    and "\<not> isspace (hd (strip x))" and "\<not> isspace (last (strip x))"
proof -
  let ?y = "dropWhile isspace x"
  let ?l = "takeWhile isspace x"
  let ?r = "rev (takeWhile isspace (rev ?y))"
  let ?m = "rev (dropWhile isspace (rev ?y))"
  have m: "strip x = ?m" by (simp add: strip_def)
  have y: "?y \<noteq> []"
  proof
    assume a: "?y = []"
    have "strip x = []"
      unfolding strip_def a by simp
    with assms show False by simp
  qed
  have ym: "?m @ ?r = ?y"
  proof -
    have "takeWhile isspace (rev ?y) @ dropWhile isspace (rev ?y) = rev ?y"
      by (rule takeWhile_dropWhile_id)
    then have "rev (takeWhile isspace (rev ?y) @ dropWhile isspace (rev ?y)) = rev (rev ?y)"
      by (rule arg_cong)
    then show ?thesis
      by (simp only: rev_rev_ident rev_append)
  qed
  have "?l @ strip x @ ?r = ?l @ ?y"
    by (simp only: m ym)
  then have x: "x = ?l @ strip x @ ?r"
    by (simp only: takeWhile_dropWhile_id)
  have l: "\<forall>c\<in>set ?l. isspace c" by (auto dest: set_takeWhileD)
  have r: "\<forall>c\<in>set ?r. isspace c" by (auto dest: set_takeWhileD)
  from y have "\<not> isspace (hd ?y)" by (simp add: hd_dropWhile)
  moreover from assms m have "?m \<noteq> []"
    by simp
  then have "hd (?m @ ?r) = hd ?m"
    by (rule hd_append2)
  then have "hd ?y = hd ?m"
    by (simp only: ym)
  ultimately have h: "\<not> isspace (hd (strip x))" by (simp add: m)
  from assms m have "dropWhile isspace (rev ?y) \<noteq> []" by simp
  then have "\<not> isspace (hd (dropWhile isspace (rev ?y)))" by (rule hd_dropWhile)
  with assms m have la: "\<not> isspace (last (strip x))"
    by (simp add: last_rev)
  from x l r h la show ?thesis by (rule that)
qed

lemma split_semicolon_single:
  assumes "CHR '';'' \<notin> set x"
  shows "split_semicolon x = [x]"
  using assms by (induction x) auto

lemma split_semicolon_pair:
  assumes "CHR '';'' \<notin> set x" and "CHR '';'' \<notin> set y"
  shows "split_semicolon (x @ CHR '';'' # y) = [x, y]"
  using assms by (induction x) (auto simp add: split_semicolon_single)

lemma relevant_controls_pair:
  assumes "CHR '';'' \<notin> set a" and "CHR '';'' \<notin> set b"
    and "strip a \<noteq> []" and "strip b \<noteq> []"
  shows "strip (a @ CHR '';'' # b) \<noteq> [] \<and>
         relevant_controls (strip (a @ CHR '';'' # b)) = [strip a, strip b]"
proof -
  from assms(3) obtain la ra where a: "a = la @ strip a @ ra"
    and la: "\<forall>c\<in>set la. isspace c" and ra: "\<forall>c\<in>set ra. isspace c"
    and ha: "\<not> isspace (hd (strip a))" and ta: "\<not> isspace (last (strip a))"
    by (rule strip_decompose)
  from assms(4) obtain lb rb where b: "b = lb @ strip b @ rb"
    and lb: "\<forall>c\<in>set lb. isspace c" and rb: "\<forall>c\<in>set rb. isspace c"
    and hb: "\<not> isspace (hd (strip b))" and tb: "\<not> isspace (last (strip b))"
    by (rule strip_decompose)
  let ?x = "strip a @ ra"
  let ?y = "lb @ strip b"
  let ?m = "?x @ CHR '';'' # ?y"
  have "a @ CHR '';'' # b = la @ ?m @ rb"
    by (subst a, subst b) simp
  moreover have "strip (la @ ?m @ rb) = ?m"
  proof (rule strip_unique [OF la rb])
    show "?m \<noteq> []" by simp
    from assms(3) ha show "\<not> isspace (hd ?m)" by simp
    from assms(4) tb show "\<not> isspace (last ?m)" by simp
  qed
  ultimately have s: "strip (a @ CHR '';'' # b) = ?m"
    by simp
  from assms(1) a have sx: "CHR '';'' \<notin> set ?x"
    by (metis Un_iff set_append)
  from assms(2) b have sy: "CHR '';'' \<notin> set ?y"
    by (metis Un_iff set_append)
  have x: "strip ?x = strip a"
    using strip_unique [OF _ ra assms(3) ha ta, of "[]"] by simp
  have y: "strip ?y = strip b"
    using strip_unique [OF lb _ assms(4) hb tb, of "[]"] by simp
  from split_semicolon_pair [OF sx sy] have "relevant_controls ?m = [strip a, strip b]"
    by (simp add: relevant_controls_def x y assms(3,4))
  with s show ?thesis
    by simp
qed

lemma map_answer_two_controls:
  assumes "points_earned result = Inr p" and "0 < p"
    and "lookup (get_default result ''QuestionID'' PyNone) = Some template_info"
    and "template_info ''RelevantFrameworkControl'' = Some (PyStr s)"
    and "strip s \<noteq> []" and "relevant_controls (strip s) = [c1, c2]"
  shows "\<exists>updated.
           map_answer lookup F result = Inr updated \<and>
           set (map fst updated) = set (map fst F) \<union> {c1, c2} \<and>
           (\<forall>control. findings_of updated control =
              findings_of F control @
              replicate (count_list [c1, c2] control) (finding_details result template_info p))"
proof -
  let ?fd = "finding_details result template_info p"
  let ?updated = "append_finding (append_finding F c1 ?fd) c2 ?fd"
  from assms have "map_answer lookup F result = Inr ?updated"
    by (simp add: map_answer_def get_default_def)
  moreover have "set (map fst ?updated) = set (map fst F) \<union> {c1, c2}"
    by (simp only: keys_append_finding) auto
  moreover have "\<forall>control. findings_of ?updated control =
      findings_of F control @ replicate (count_list [c1, c2] control) ?fd"
    by (simp add: findings_of_append_finding)
  ultimately show ?thesis by blast
qed

text \<open>
  Claim C9: a risky answer whose question lists two controls separated by a semicolon
  appends exactly two findings, one under each control, with the same content; nothing is
  appended under another control. When the two controls are the same identifier, both
  findings are appended to its list.
\<close>

theorem two_controls_two_findings:
  assumes "points_earned result = Inr p" and "0 < p"
    and "lookup (get_default result ''QuestionID'' PyNone) = Some template_info"
    and "template_info ''RelevantFrameworkControl'' = Some (PyStr (a @ CHR '';'' # b))"
    and "CHR '';'' \<notin> set a" and "CHR '';'' \<notin> set b"
    and "strip a \<noteq> []" and "strip b \<noteq> []"
  shows "\<exists>updated.
           map_answer lookup F result = Inr updated \<and>
           set (map fst updated) = set (map fst F) \<union> {strip a, strip b} \<and>
           (\<forall>control. findings_of updated control =
              findings_of F control @
              replicate (count_list [strip a, strip b] control)
                (finding_details result template_info p))"
proof -
  from relevant_controls_pair [OF assms(5-8)]
  have "strip (a @ CHR '';'' # b) \<noteq> []"
    and "relevant_controls (strip (a @ CHR '';'' # b)) = [strip a, strip b]"
    by simp_all
  with assms(1-4) show ?thesis
    by (rule map_answer_two_controls)
qed

theorem two_controls_two_findings_witness:
  "(\<exists>updated.
      map_answer [PyStr ''Q1'' \<mapsto> access_question] []
        (answer_row ''Q1'' ''yes_no'' (PyStr ''10'') ''no'') = Inr updated \<and>
      set (map fst updated) = {''ISO:A.9'', ''NIST:AC-2''} \<and>
      findings_of updated ''ISO:A.9'' = [access_finding] \<and>
      findings_of updated ''NIST:AC-2'' = [access_finding] \<and>
      findings_of updated ''ISO:A.12'' = []) \<and>
   (\<exists>updated.
      map_answer [PyStr ''Q4'' \<mapsto> backup_question] [(''ISO:A.12'', [access_finding])]
        (answer_row ''Q4'' ''score_1_5'' (PyStr ''2'') ''2'') = Inr updated \<and>
      set (map fst updated) = {''ISO:A.12''} \<and>
      findings_of updated ''ISO:A.12'' = [access_finding, backup_finding, backup_finding])"
proof -
  let ?no = "answer_row ''Q1'' ''yes_no'' (PyStr ''10'') ''no''"
  let ?two = "answer_row ''Q4'' ''score_1_5'' (PyStr ''2'') ''2''"
  have z: "(0::int) < 10" "(0::int) < 6"
    by simp_all
  have e: "findings_of [] k = []" for k
    by (simp add: findings_of_def)
  have p1: "points_earned ?no = Inr 10"
    by (simp add: points_earned_def risk_weight_def row_eval string_eval int_eval)
  have l1: "[PyStr ''Q1'' \<mapsto> access_question] (get_default ?no ''QuestionID'' PyNone) =
      Some access_question"
    by (simp add: row_eval)
  have c1: "access_question ''RelevantFrameworkControl'' =
      Some (PyStr (''ISO:A.9'' @ CHR '';'' # '' NIST:AC-2''))"
    by (simp add: access_question_def question_row_def)
  have s1: "CHR '';'' \<notin> set ''ISO:A.9''" "CHR '';'' \<notin> set '' NIST:AC-2''"
    "strip ''ISO:A.9'' \<noteq> []" "strip '' NIST:AC-2'' \<noteq> []"
    by (simp_all add: string_eval)
  have v1: "strip ''ISO:A.9'' = ''ISO:A.9''" "strip '' NIST:AC-2'' = ''NIST:AC-2''"
    by (simp_all add: string_eval)
  have f1: "finding_details ?no access_question 10 = access_finding"
    by (simp add: mapper_eval row_eval)
  from two_controls_two_findings [where lookup = "[PyStr ''Q1'' \<mapsto> access_question]"
      and template_info = access_question and F = "[]", OF p1 z(1) l1 c1 s1]
  obtain updated where
    "map_answer [PyStr ''Q1'' \<mapsto> access_question] [] ?no = Inr updated"
    and "set (map fst updated) =
           set (map fst []) \<union> {strip ''ISO:A.9'', strip '' NIST:AC-2''}"
    and "\<forall>control. findings_of updated control =
           findings_of [] control @
           replicate (count_list [strip ''ISO:A.9'', strip '' NIST:AC-2''] control)
             (finding_details ?no access_question 10)"
    by auto
  then have first: "\<exists>updated.
      map_answer [PyStr ''Q1'' \<mapsto> access_question] [] ?no = Inr updated \<and>
      set (map fst updated) = {''ISO:A.9'', ''NIST:AC-2''} \<and>
      findings_of updated ''ISO:A.9'' = [access_finding] \<and>
      findings_of updated ''NIST:AC-2'' = [access_finding] \<and>
      findings_of updated ''ISO:A.12'' = []"
    by (simp add: f1 e v1)
  have p2: "points_earned ?two = Inr 6"
    by (simp add: points_earned_def risk_weight_def row_eval string_eval int_eval)
  have l2: "[PyStr ''Q4'' \<mapsto> backup_question] (get_default ?two ''QuestionID'' PyNone) =
      Some backup_question"
    by (simp add: row_eval)
  have c2: "backup_question ''RelevantFrameworkControl'' =
      Some (PyStr (''ISO:A.12'' @ CHR '';'' # ''ISO:A.12''))"
    by (simp add: backup_question_def question_row_def)
  have s2: "CHR '';'' \<notin> set ''ISO:A.12''" "CHR '';'' \<notin> set ''ISO:A.12''"
    "strip ''ISO:A.12'' \<noteq> []" "strip ''ISO:A.12'' \<noteq> []"
    by (simp_all add: string_eval)
  have v2: "strip ''ISO:A.12'' = ''ISO:A.12''"
    by (simp add: string_eval)
  have f2: "finding_details ?two backup_question 6 = backup_finding"
    by (simp add: mapper_eval row_eval)
  have g: "findings_of [(''ISO:A.12'', [access_finding])] ''ISO:A.12'' = [access_finding]"
    by (simp add: findings_of_def)
  from two_controls_two_findings [where lookup = "[PyStr ''Q4'' \<mapsto> backup_question]"
      and template_info = backup_question and F = "[(''ISO:A.12'', [access_finding])]",
      OF p2 z(2) l2 c2 s2]
  obtain updated where
    "map_answer [PyStr ''Q4'' \<mapsto> backup_question] [(''ISO:A.12'', [access_finding])] ?two =
       Inr updated"
    and "set (map fst updated) =
           set (map fst [(''ISO:A.12'', [access_finding])]) \<union>
           {strip ''ISO:A.12'', strip ''ISO:A.12''}"
    and "\<forall>control. findings_of updated control =
           findings_of [(''ISO:A.12'', [access_finding])] control @
           replicate (count_list [strip ''ISO:A.12'', strip ''ISO:A.12''] control)
             (finding_details ?two backup_question 6)"
    by auto
  then have second: "\<exists>updated.
      map_answer [PyStr ''Q4'' \<mapsto> backup_question] [(''ISO:A.12'', [access_finding])] ?two =
        Inr updated \<and>
      set (map fst updated) = {''ISO:A.12''} \<and>
      findings_of updated ''ISO:A.12'' = [access_finding, backup_finding, backup_finding]"
    by (simp add: f2 g v2)
  from first second show ?thesis
    by (rule conjI)
qed

subsection \<open>An answer to a question missing from the catalog\<close>

lemma dom_question_lookup_from:
  assumes "question_lookup_from m qs = Inr lk"
  shows "dom lk = dom m \<union> {k. \<exists>q\<in>set qs. q ''QuestionID'' = Some k}"
  using assms
proof (induction qs arbitrary: m)
  case Nil
  then show ?case by simp
next
  case (Cons q qs)
  from Cons.prems obtain i where i: "q ''QuestionID'' = Some i"
    and r: "question_lookup_from (m(i \<mapsto> q)) qs = Inr lk"
    by (auto simp add: getitem_def split: option.splits)
  from Cons.IH [OF r] have "dom lk = dom (m(i \<mapsto> q)) \<union> {k. \<exists>q\<in>set qs. q ''QuestionID'' = Some k}" .
  also have "dom (m(i \<mapsto> q)) = insert i (dom m)"
    by simp
  also have "insert i (dom m) \<union> {k. \<exists>q\<in>set qs. q ''QuestionID'' = Some k} =
      dom m \<union> {k. \<exists>q'\<in>set (q # qs). q' ''QuestionID'' = Some k}"
    using i by auto
  finally show ?case .
qed

lemma map_answers_append:
  "map_answers lk F (xs @ ys) =
     (case map_answers lk F xs of Inl e \<Rightarrow> Inl e | Inr G \<Rightarrow> map_answers lk G ys)"
  by (induction xs arbitrary: F) (simp_all split: sum.split)

text \<open>
  Claim C10: a scored answer whose question identifier no question of the catalog carries
  adds nothing to the map and raises nothing; the answers before and after it are
  processed as if it were not there.
\<close>

theorem absent_question_skipped:
  assumes "question_lookup template_questions = Inr lookup"
    and "\<forall>q\<in>set template_questions.
           q ''QuestionID'' \<noteq> Some (get_default result ''QuestionID'' PyNone)"
    and "points_earned result = Inr p"
  shows "map_answer lookup F result = Inr F \<and>
         map_answers lookup F (before @ result # after) = map_answers lookup F (before @ after) \<and>
         (before @ after \<noteq> [] \<longrightarrow>
            analyze_framework_impact (Some template_questions) (Some (before @ result # after)) =
            analyze_framework_impact (Some template_questions) (Some (before @ after)))"
proof -
  from assms(1) have "dom lookup = {k. \<exists>q\<in>set template_questions. q ''QuestionID'' = Some k}"
    using dom_question_lookup_from [of Map.empty template_questions lookup]
    by (simp add: question_lookup_def)
  with assms(2) have "lookup (get_default result ''QuestionID'' PyNone) = None"
    by (auto simp add: dom_def)
  with assms(3) have one: "map_answer lookup G result = Inr G" for G
    by (simp add: map_answer_def)
  then have many: "map_answers lookup G (before @ result # after) =
      map_answers lookup G (before @ after)" for G
    by (simp add: map_answers_append split: sum.split)
  from assms(1) many [of "[]"] have "before @ after \<noteq> [] \<longrightarrow>
      analyze_framework_impact (Some template_questions) (Some (before @ result # after)) =
      analyze_framework_impact (Some template_questions) (Some (before @ after))"
    by (simp add: analyze_framework_impact_def py_not_def)
  with one many show ?thesis by blast
qed

theorem absent_question_skipped_witness:
  "points_earned (answer_row ''Q9'' ''yes_no'' (PyStr ''5'') ''no'') = Inr 5 \<and>
   map_answer [PyStr ''Q1'' \<mapsto> access_question] []
     (answer_row ''Q9'' ''yes_no'' (PyStr ''5'') ''no'') = Inr [] \<and>
   analyze_framework_impact (Some [access_question])
     (Some [answer_row ''Q9'' ''yes_no'' (PyStr ''5'') ''no'',
            answer_row ''Q1'' ''yes_no'' (PyStr ''10'') ''no'']) =
   analyze_framework_impact (Some [access_question])
     (Some [answer_row ''Q1'' ''yes_no'' (PyStr ''10'') ''no''])"
proof -
  let ?absent = "answer_row ''Q9'' ''yes_no'' (PyStr ''5'') ''no''"
  let ?no = "answer_row ''Q1'' ''yes_no'' (PyStr ''10'') ''no''"
  have l: "question_lookup [access_question] = Inr [PyStr ''Q1'' \<mapsto> access_question]"
    by (simp add: question_lookup_def access_question_def question_row_def getitem_def)
  have a: "\<forall>q\<in>set [access_question].
      q ''QuestionID'' \<noteq> Some (get_default ?absent ''QuestionID'' PyNone)"
    by (simp add: access_question_def question_row_def row_eval)
  have p: "points_earned ?absent = Inr 5"
    by (simp add: points_earned_def risk_weight_def row_eval string_eval int_eval)
  from absent_question_skipped [OF l a p, of "[]" "[]" "[?no]"] p show ?thesis
    by simp
qed

subsection \<open>Missing arguments\<close>

lemma question_lookup_from_total:
  assumes "\<forall>q\<in>set qs. catalog_question q" and "\<forall>k q. m k = Some q \<longrightarrow> catalog_question q"
  shows "\<exists>lk. question_lookup_from m qs = Inr lk \<and> (\<forall>k q. lk k = Some q \<longrightarrow> catalog_question q)"
  using assms
proof (induction qs arbitrary: m)
  case Nil
  then show ?case by simp
next
  case (Cons q qs)
  from Cons.prems(1) have cq: "catalog_question q" by simp
  then obtain i where i: "q ''QuestionID'' = Some i"
    by (auto simp add: catalog_question_def)
  from Cons.prems(1) have rest: "\<forall>q\<in>set qs. catalog_question q"
    by simp
  from cq Cons.prems(2) have upd: "\<forall>k q'. (m(i \<mapsto> q)) k = Some q' \<longrightarrow> catalog_question q'"
    by simp
  have "question_lookup_from m (q # qs) = question_lookup_from (m(i \<mapsto> q)) qs"
    by (simp add: getitem_def i)
  with Cons.IH [OF rest upd] show ?case
    by (simp only:)
qed

lemma map_answer_total:
  assumes "answered_question result qid t wv a" and "wv \<noteq> PyNone"
    and "\<forall>k q. lookup k = Some q \<longrightarrow> catalog_question q"
  shows "\<exists>updated. map_answer lookup F result = Inr updated"
proof -
  from points_earned_total [OF assms(1,2)] obtain p where p: "points_earned result = Inr p"
    by blast
  show ?thesis
  proof (cases "lookup (get_default result ''QuestionID'' PyNone)")
    case None
    with p show ?thesis by (simp add: map_answer_def)
  next
    case (Some q)
    with assms(3) have "catalog_question q" by blast
    then have "\<exists>s. get_default q ''RelevantFrameworkControl'' (PyStr []) = PyStr s"
      by (auto simp add: catalog_question_def get_default_def split: option.splits pyval.splits)
    then obtain s where "get_default q ''RelevantFrameworkControl'' (PyStr []) = PyStr s"
      by blast
    with p Some show ?thesis
      by (simp add: map_answer_def Let_def)
  qed
qed

lemma map_answers_total:
  assumes "\<forall>r\<in>set results. \<exists>qid t wv a. answered_question r qid t wv a \<and> wv \<noteq> PyNone"
    and "\<forall>k q. lookup k = Some q \<longrightarrow> catalog_question q"
  shows "\<exists>updated. map_answers lookup F results = Inr updated"
  using assms(1)
proof (induction results arbitrary: F)
  case Nil
  then show ?case by simp
next
  case (Cons r rs)
  from Cons.prems obtain qid t wv a where "answered_question r qid t wv a" and "wv \<noteq> PyNone"
    by auto
  from map_answer_total [OF this assms(2)] obtain G where g: "map_answer lookup F r = Inr G"
    by blast
  from Cons.prems have "\<forall>r\<in>set rs. \<exists>qid t wv a. answered_question r qid t wv a \<and> wv \<noteq> PyNone"
    by simp
  from Cons.IH [OF this, of G] g show ?case by simp
qed

text \<open>
  Claim C4: the mapper fails with an error when the catalog or the answers are missing or
  empty, and never raises otherwise. The code does neither: for a missing or empty
  argument it returns \<^verbatim>\<open>None\<close> and raises nothing, and an answer whose weight is
  \<^verbatim>\<open>None\<close>, as a short line of the saved file gives it, raises \<^verbatim>\<open>TypeError\<close>.
\<close>

theorem mapper_returns_sentinel:
  "analyze_framework_impact None (Some [answer_row ''Q1'' ''yes_no'' (PyStr ''10'') ''no'']) =
     Inr None \<and>
   analyze_framework_impact (Some []) (Some [answer_row ''Q1'' ''yes_no'' (PyStr ''10'') ''no'']) =
     Inr None \<and>
   analyze_framework_impact (Some [access_question]) None = Inr None \<and>
   analyze_framework_impact (Some [access_question]) (Some []) = Inr None \<and>
   analyze_framework_impact (Some [access_question])
     (Some [[''QuestionID'' \<mapsto> PyStr ''Q1'', ''AnswerType'' \<mapsto> PyStr ''yes_no'',
             ''RiskWeight'' \<mapsto> PyNone, ''AnswerGiven'' \<mapsto> PyNone]]) = Inl TypeError"
  by (simp add: mapper_eval row_eval string_eval int_eval)

text \<open>
  Claim C4 as amended: for a missing or empty catalog, and for a missing or empty sequence
  of answers, the mapper returns \<^verbatim>\<open>None\<close> and raises nothing. For a catalog that is not
  empty, of questions with an identifier and a string (or nothing) as their controls, and
  a sequence that is not empty, of answered questions whose weight is not \<^verbatim>\<open>None\<close>, it
  raises nothing and returns a map of findings.
\<close>

theorem mapper_sentinel_or_findings:
  "(template_questions = None \<or> template_questions = Some [] \<or>
    assessment_results = None \<or> assessment_results = Some []
      \<longrightarrow> analyze_framework_impact template_questions assessment_results = Inr None) \<and>
   (questions \<noteq> [] \<and> results \<noteq> [] \<and> (\<forall>q\<in>set questions. catalog_question q) \<and>
    (\<forall>r\<in>set results. \<exists>qid t wv a. answered_question r qid t wv a \<and> wv \<noteq> PyNone)
      \<longrightarrow> (\<exists>framework_findings.
             analyze_framework_impact (Some questions) (Some results) =
               Inr (Some framework_findings)))"
proof (intro conjI impI)
  assume "template_questions = None \<or> template_questions = Some [] \<or>
    assessment_results = None \<or> assessment_results = Some []"
  then show "analyze_framework_impact template_questions assessment_results = Inr None"
    by (auto simp add: analyze_framework_impact_def py_not_def)
next
  assume a: "questions \<noteq> [] \<and> results \<noteq> [] \<and> (\<forall>q\<in>set questions. catalog_question q) \<and>
    (\<forall>r\<in>set results. \<exists>qid t wv a. answered_question r qid t wv a \<and> wv \<noteq> PyNone)"
  then have "\<forall>q\<in>set questions. catalog_question q" by blast
  from question_lookup_from_total [OF this, of Map.empty] obtain lk where
    lk: "question_lookup questions = Inr lk" and c: "\<forall>k q. lk k = Some q \<longrightarrow> catalog_question q"
    by (auto simp add: question_lookup_def)
  from a have "\<forall>r\<in>set results. \<exists>qid t wv a. answered_question r qid t wv a \<and> wv \<noteq> PyNone"
    by blast
  from map_answers_total [OF this c, of "[]"] obtain F where "map_answers lk [] results = Inr F"
    by blast
  with a lk show "\<exists>framework_findings.
      analyze_framework_impact (Some questions) (Some results) = Inr (Some framework_findings)"
    by (simp add: analyze_framework_impact_def py_not_def)
qed

theorem mapper_sentinel_or_findings_witness:
  "analyze_framework_impact (Some []) (Some [answer_row ''Q1'' ''yes_no'' (PyStr ''10'') ''no'']) =
     Inr None \<and>
   (\<exists>framework_findings.
      analyze_framework_impact (Some [access_question])
        (Some [answer_row ''Q1'' ''yes_no'' (PyStr ''10'') ''no'']) = Inr (Some framework_findings))"
proof -
  let ?no = "answer_row ''Q1'' ''yes_no'' (PyStr ''10'') ''no''"
  have q: "\<forall>q\<in>set [access_question]. catalog_question q"
    by (simp add: access_question_def catalog_question_row)
  have r: "\<forall>r\<in>set [?no]. \<exists>qid t wv a. answered_question r qid t wv a \<and> wv \<noteq> PyNone"
    using answered_answer_row [of "''Q1''" "''yes_no''" "PyStr ''10''" "''no''"]
    by (simp del: fun_upd_apply) blast
  from mapper_sentinel_or_findings [of "Some []" "Some [?no]" "[access_question]" "[?no]"] q r
  show ?thesis
    by simp
qed

end
